theory Spec2Isabelle
  imports Main "HOL-Library.Sublist"
begin

section \<open>Python text\<close>

text \<open>
  A Python \<open>str\<close> is modelled as a \<open>string\<close>: the list of the bytes of its UTF-8
  encoding. The string methods below act on ASCII characters as Python's do on ASCII
  text (package names, comparator tokens and the listing's separators are ASCII); a byte
  outside ASCII is neither whitespace nor a cased letter here.
\<close>

definition lower_char :: "char \<Rightarrow> char" where
  "lower_char c =
     (if 65 \<le> (of_char c :: nat) \<and> (of_char c :: nat) \<le> 90
      then char_of ((of_char c :: nat) + 32) else c)"

text \<open>\<open>s.lower()\<close>\<close>

definition lower :: "string \<Rightarrow> string" where
  "lower s = map lower_char s"

text \<open>The characters \<open>str.split()\<close> and \<open>str.strip()\<close> take for whitespace:
  tab, line feed, vertical tab, form feed, carriage return, the four separators
  0x1C..0x1F and the space.\<close>

definition is_space :: "char \<Rightarrow> bool" where
  "is_space c =
     ((9 \<le> (of_char c :: nat) \<and> (of_char c :: nat) \<le> 13) \<or>
      (28 \<le> (of_char c :: nat) \<and> (of_char c :: nat) \<le> 32))"

text \<open>\<open>s.strip()\<close>\<close>

definition strip :: "string \<Rightarrow> string" where
  "strip s = rev (dropWhile is_space (rev (dropWhile is_space s)))"

text \<open>\<open>s.split()\<close>: the maximal runs of characters that are not whitespace.\<close>

fun split_ws :: "string \<Rightarrow> string list" where
  "split_ws [] = []"
| "split_ws (c # cs) =
     (if is_space c then split_ws cs
      else (case cs of
              [] \<Rightarrow> [[c]]
            | d # _ \<Rightarrow>
                if is_space d then [c] # split_ws cs
                else (case split_ws cs of
                        [] \<Rightarrow> [[c]]
                      | w # ws \<Rightarrow> (c # w) # ws)))"

text \<open>
  \<open>s.split(sep)\<close> for a nonempty separator: the pieces between the occurrences of
  \<open>sep\<close>, found from the left and not overlapping. The counter is the number of
  characters of a found separator still to be passed over. (Python raises
  \<open>ValueError\<close> on an empty separator; every separator of the program is a
  nonempty literal.)
\<close>

fun split_from :: "string \<Rightarrow> nat \<Rightarrow> string \<Rightarrow> string list" where
  "split_from sep k [] = [[]]"
| "split_from sep (Suc k) (c # cs) = split_from sep k cs"
| "split_from sep 0 (c # cs) =
     (if prefix sep (c # cs) then [] # split_from sep (length sep - 1) cs
      else (case split_from sep 0 cs of
              [] \<Rightarrow> [[c]]
            | w # ws \<Rightarrow> (c # w) # ws))"

definition split_on :: "string \<Rightarrow> string \<Rightarrow> string list" where
  "split_on sep s = split_from sep 0 s"

text \<open>\<open>s.replace(old, new)\<close> for one-character \<open>old\<close> and \<open>new\<close>.\<close>

definition replace :: "char \<Rightarrow> char \<Rightarrow> string \<Rightarrow> string" where
  "replace old new s = map (\<lambda>c. if c = old then new else c) s"

text \<open>\<open>s[-n:]\<close>: the last \<open>n\<close> characters, all of \<open>s\<close> when it is shorter.\<close>

definition last_chars :: "nat \<Rightarrow> string \<Rightarrow> string" where
  "last_chars n s = drop (length s - n) s"

text \<open>\<open>str(n)\<close> of a length, as an f-string formats it: decimal digits.\<close>

definition digit_char :: "nat \<Rightarrow> char" where
  "digit_char d = char_of (48 + d)"

function str_nat :: "nat \<Rightarrow> string" where
  "str_nat n = (if n < 10 then [digit_char n] else str_nat (n div 10) @ [digit_char (n mod 10)])"
  by pat_completeness auto
termination
  by (relation "measure (\<lambda>n. n)") auto

declare str_nat.simps [simp del]

section \<open>Exceptions\<close>

datatype exn_class = IndexError | TimeoutExpired | FileNotFoundError | OSError | OtherException

text \<open>An exception: its class and its text \<open>str(e)\<close>.\<close>

datatype exn = Exn exn_class string

fun str_exn :: "exn \<Rightarrow> string" where
  "str_exn (Exn c m) = m"

text \<open>\<open>xs[0]\<close>\<close>

definition index0 :: "'a list \<Rightarrow> exn + 'a" where
  "index0 xs = (case xs of [] \<Rightarrow> Inl (Exn IndexError ''list index out of range'') | x # _ \<Rightarrow> Inr x)"

section \<open>The host: paths, processes, console\<close>

text \<open>
  A path under the home directory is the list of its components below
  \<open>Path.home()\<close>; \<open>p / c\<close> is \<open>p @ [c]\<close> and \<open>p.parent\<close> is \<open>butlast p\<close>.
\<close>

type_synonym path = "string list"

text \<open>What \<open>subprocess.run\<close> ends in: a completed process (return code, standard
  output, standard error) or a raised exception of class \<open>Exception\<close>.\<close>

datatype proc = Completed int string string | Raised exn

text \<open>The part of the machine that external tools change: the files that exist
  (paths below the home directory) and what \<open>shutil.which("uv")\<close> finds.\<close>

record world =
  files :: "path set"
  which_uv :: "string option"

text \<open>
  What the program takes from its surroundings: \<open>sys.platform\<close>, the text of
  \<open>Path.home()\<close> (not a filesystem root), \<open>sys.executable\<close>, \<open>os.environ\<close>,
  and the two primitives it does not implement: \<open>subprocess.run\<close> with the arguments
  of line 54, and \<open>Path.mkdir(parents=True, exist_ok=True)\<close>, which may raise.
\<close>

record host =
  platform :: string
  home :: string
  executable :: string
  environ :: "string \<rightharpoonup> string"
  spawn :: "string list \<Rightarrow> world \<Rightarrow> proc \<times> world"
  mkdir :: "path \<Rightarrow> world \<Rightarrow> exn + world"

datatype event = Print string | Spawn "string list"

text \<open>The state threaded through the program: the world and the trace of what the
  program itself did, oldest first: a line printed, or a call of \<open>subprocess.run\<close> with
  its argument vector (recorded also when the call raises and no process starts).\<close>

record state =
  sys :: world
  trace :: "event list"

definition print :: "string \<Rightarrow> state \<Rightarrow> state" where
  "print s st = st\<lparr>trace := trace st @ [Print s]\<rparr>"

text \<open>The argument vectors of the calls of \<open>subprocess.run\<close> in a trace.\<close>

fun spawned :: "event list \<Rightarrow> string list list" where
  "spawned [] = []"
| "spawned (Spawn cmd # es) = cmd # spawned es"
| "spawned (Print s # es) = spawned es"

text \<open>\<open>str(p)\<close> of a path: the components joined by the platform's separator.\<close>

definition sep :: "host \<Rightarrow> string" where
  "sep h = (if platform h = ''win32'' then [CHR 0x5C] else ''/'')"

definition path_str :: "host \<Rightarrow> path \<Rightarrow> string" where
  "path_str h p = home h @ concat (map (\<lambda>c. sep h @ c) p)"

section \<open>setup.py\<close>

definition VENV_DIR :: path where
  "VENV_DIR = [''.spinel'', ''venv'']"

definition REQUIREMENTS :: "string list" where
  "REQUIREMENTS =
     [''pymatgen>=2024.0.0'', ''mp-api>=0.41.0'', ''emmet-core'', ''ase>=3.22'',
      ''hyperspy>=2.0'', ''kikuchipy'', ''pycalphad'', ''scheil'', ''phonopy'', ''matgl'',
      ''diffpy.structure'', ''Dans_Diffraction'', ''tifffile'', ''jcamp'',
      ''brukeropusreader'', ''spc-spectra'', ''cellpy'', ''galvani'', ''impedance.py'',
      ''PyBaMM'']"

text \<open>\<open>run\<close> (lines 51-59). \<open>run_try\<close> is the body of the \<open>try\<close>, \<open>run\<close> adds the
  \<open>except Exception\<close>. No caller passes keyword arguments.\<close>

definition run_try :: "host \<Rightarrow> string list \<Rightarrow> state \<Rightarrow> (exn + bool \<times> string) \<times> state" where
  "run_try h cmd st =
     (case spawn h cmd (sys st) of
        (result, w) \<Rightarrow>
          (case result of
             Completed returncode stdout stderr \<Rightarrow> Inr (returncode = 0, stdout @ stderr)
           | Raised e \<Rightarrow> Inl e,
           st\<lparr>sys := w, trace := trace st @ [Spawn cmd]\<rparr>))"

definition run :: "host \<Rightarrow> string list \<Rightarrow> state \<Rightarrow> (bool \<times> string) \<times> state" where
  "run h cmd st =
     (case run_try h cmd st of
        (Inr r, st') \<Rightarrow> (r, st')
      | (Inl e, st') \<Rightarrow> ((False, str_exn e), st'))"

text \<open>\<open>get_pip\<close> (lines 62-66) and \<open>get_python\<close> (lines 69-73)\<close>

definition get_pip :: "host \<Rightarrow> string" where
  "get_pip h =
     (if platform h = ''win32'' then path_str h (VENV_DIR @ [''Scripts''] @ [''pip''])
      else path_str h (VENV_DIR @ [''bin''] @ [''pip'']))"

definition get_python :: "host \<Rightarrow> string" where
  "get_python h =
     (if platform h = ''win32'' then path_str h (VENV_DIR @ [''Scripts''] @ [''python''])
      else path_str h (VENV_DIR @ [''bin''] @ [''python'']))"

text \<open>\<open>ensure_venv\<close> (lines 76-95). \<open>ensure_venv_fallback\<close> is lines 91-95, reached
  when \<open>uv\<close> is not found and when its attempt fails.\<close>

definition ensure_venv_fallback :: "host \<Rightarrow> state \<Rightarrow> (exn + bool \<times> string) \<times> state" where
  "ensure_venv_fallback h st =
     (case run h [executable h, ''-m'', ''venv'', path_str h VENV_DIR] st of
        ((ok, out), st') \<Rightarrow>
          if ok then (Inr (True, ''created with venv''), st')
          else (Inr (False, ''Failed to create venv: '' @ out), st'))"

definition ensure_venv :: "host \<Rightarrow> state \<Rightarrow> (exn + bool \<times> string) \<times> state" where
  "ensure_venv h st =
     (if VENV_DIR @ [''bin''] @ [''python''] \<in> files (sys st)
         \<or> VENV_DIR @ [''Scripts''] @ [''python.exe''] \<in> files (sys st)
      then (Inr (True, ''venv exists''), st)
      else
        (let st1 = print ''Creating Spinel virtual environment at ~/.spinel/venv ...'' st in
         case mkdir h (butlast VENV_DIR) (sys st1) of
           Inl e \<Rightarrow> (Inl e, st1)
         | Inr w \<Rightarrow>
             (let st2 = st1\<lparr>sys := w\<rparr> in
              case which_uv (sys st2) of
                None \<Rightarrow> ensure_venv_fallback h st2
              | Some uv \<Rightarrow>
                  if uv \<noteq> [] then
                    (case run h [uv, ''venv'', path_str h VENV_DIR] st2 of
                       ((ok, out), st3) \<Rightarrow>
                         if ok then (Inr (True, ''created with uv''), st3)
                         else ensure_venv_fallback h st3)
                  else ensure_venv_fallback h st2)))"

text \<open>\<open>check_installed\<close> (lines 98-110). \<open>installed_loop\<close> is the \<open>for\<close> loop of
  lines 106-109 over the lines that remain, with the set built so far.\<close>

fun installed_loop :: "string list \<Rightarrow> string set \<Rightarrow> exn + string set" where
  "installed_loop [] installed = Inr installed"
| "installed_loop (line # rest) installed =
     (let parts = split_ws line in
      if parts \<noteq> [] then
        (case index0 parts of
           Inl e \<Rightarrow> Inl e
         | Inr p \<Rightarrow>
             installed_loop rest
               (insert (replace (CHR ''.'') (CHR ''_'') (replace (CHR ''-'') (CHR ''_'') (lower p)))
                  installed))
      else installed_loop rest installed)"

definition check_installed :: "host \<Rightarrow> state \<Rightarrow> (exn + string set) \<times> state" where
  "check_installed h st =
     (let pip = get_pip h in
      case run h [pip, ''list'', ''--format=columns''] st of
        ((ok, out), st') \<Rightarrow>
          if \<not> ok then (Inr {}, st')
          else (installed_loop (drop 2 (split_on [CHR 0x0A] (strip out))) {}, st'))"

text \<open>\<open>install_missing\<close> (lines 113-140), with the module's list \<open>REQUIREMENTS\<close>
  as the parameter \<open>reqs\<close>. \<open>normalize_name\<close> is the inner function \<open>normalize\<close> of lines 118-119,
  \<open>missing_of\<close> the comprehension of line 121, \<open>install_missing_fallback\<close> lines
  135-140.\<close>

definition normalize_name :: "string \<Rightarrow> exn + string" where
  "normalize_name name =
     (case index0 (split_on ''>='' (lower name)) of
        Inl e \<Rightarrow> Inl e
      | Inr a \<Rightarrow>
          (case index0 (split_on ''<='' a) of
             Inl e \<Rightarrow> Inl e
           | Inr b \<Rightarrow>
               (case index0 (split_on ''=='' b) of
                  Inl e \<Rightarrow> Inl e
                | Inr c \<Rightarrow> Inr (replace (CHR ''.'') (CHR ''_'') (replace (CHR ''-'') (CHR ''_'') c)))))"

fun missing_of :: "string list \<Rightarrow> string set \<Rightarrow> exn + string list" where
  "missing_of [] installed = Inr []"
| "missing_of (pkg # rest) installed =
     (case normalize_name pkg of
        Inl e \<Rightarrow> Inl e
      | Inr key \<Rightarrow>
          (case missing_of rest installed of
             Inl e \<Rightarrow> Inl e
           | Inr ms \<Rightarrow> Inr (if key \<notin> installed then pkg # ms else ms)))"

definition install_missing_fallback ::
  "host \<Rightarrow> string \<Rightarrow> string list \<Rightarrow> state \<Rightarrow> (exn + bool \<times> string) \<times> state" where
  "install_missing_fallback h pip missing st =
     (case run h ([pip, ''install''] @ missing) st of
        ((ok, out), st') \<Rightarrow>
          if ok then
            (Inr (True, ''installed '' @ str_nat (length missing) @ '' packages with pip''), st')
          else (Inr (False, ''Installation failed: '' @ last_chars 500 out), st'))"

definition install_missing ::
  "host \<Rightarrow> string list \<Rightarrow> string set \<Rightarrow> state \<Rightarrow> (exn + bool \<times> string) \<times> state" where
  "install_missing h reqs installed st =
     (let pip = get_pip h in
      case missing_of reqs installed of
        Inl e \<Rightarrow> (Inl e, st)
      | Inr missing \<Rightarrow>
          if missing = [] then (Inr (True, ''all packages installed''), st)
          else
            (let st1 = print (''Installing '' @ str_nat (length missing) @ '' missing packages...'') st in
             case which_uv (sys st1) of
               None \<Rightarrow> install_missing_fallback h pip missing st1
             | Some uv \<Rightarrow>
                 if uv \<noteq> [] then
                   (case run h ([uv, ''pip'', ''install'', ''--python'', get_python h] @ missing) st1 of
                      ((ok, out), st2) \<Rightarrow>
                        if ok then
                          (Inr (True, ''installed '' @ str_nat (length missing) @ '' packages with uv''),
                           st2)
                        else install_missing_fallback h pip missing st2)
                 else install_missing_fallback h pip missing st1))"

text \<open>Step 2 of \<open>main\<close> (lines 174-175): the listing, then the installation of what
  it does not show.\<close>

definition main_packages :: "host \<Rightarrow> string list \<Rightarrow> state \<Rightarrow> (exn + bool \<times> string) \<times> state" where
  "main_packages h reqs st =
     (case check_installed h st of
        (Inl e, st') \<Rightarrow> (Inl e, st')
      | (Inr installed, st') \<Rightarrow> install_missing h reqs installed st')"

text \<open>\<open>check_api_keys\<close> (lines 143-159). \<open>not v\<close> holds of an unset variable and of
  the empty text.\<close>

definition falsy :: "string option \<Rightarrow> bool" where
  "falsy v = (case v of None \<Rightarrow> True | Some s \<Rightarrow> s = [])"

definition mp_issue :: string where
  "mp_issue =
     ''MP_API_KEY not set. Get a free key at https://next-gen.materialsproject.org ''
     @ ''(Dashboard '' @ [CHR 0xE2, CHR 0x86, CHR 0x92] @ '' API Key), then: export MP_API_KEY=your_key''"

definition nomad_note :: string where
  "nomad_note =
     ''NOMAD_TOKEN not set (optional '' @ [CHR 0xE2, CHR 0x80, CHR 0x94]
     @ '' needed only for private NOMAD data)''"

definition check_api_keys :: "host \<Rightarrow> string list \<times> string list" where
  "check_api_keys h =
     (let issues = [];
          mp_key = environ h ''MP_API_KEY'';
          issues = (if falsy mp_key then issues @ [mp_issue] else issues);
          notes = [];
          notes = (if falsy (environ h ''NOMAD_TOKEN'') then notes @ [nomad_note] else notes)
      in (issues, notes))"

section \<open>Concrete hosts and worlds\<close>

text \<open>A POSIX host and a Windows host on which every process exits with the given
  return code and output and changes nothing, and \<open>mkdir\<close> succeeds.\<close>

definition exits :: "int \<Rightarrow> string \<Rightarrow> string list \<Rightarrow> world \<Rightarrow> proc \<times> world" where
  "exits rc out cmd w = (Completed rc out [], w)"

definition mkdir_ok :: "path \<Rightarrow> world \<Rightarrow> exn + world" where
  "mkdir_ok p w = Inr (w\<lparr>files := insert p (files w)\<rparr>)"

definition posix_host :: "int \<Rightarrow> string \<Rightarrow> host" where
  "posix_host rc out =
     \<lparr>platform = ''linux'', home = ''/home/u'', executable = ''/usr/bin/python3'',
      environ = Map.empty, spawn = exits rc out, mkdir = mkdir_ok\<rparr>"

definition win_host :: "int \<Rightarrow> string \<Rightarrow> host" where
  "win_host rc out =
     \<lparr>platform = ''win32'', home = ''C:'' @ [CHR 0x5C] @ ''Users'' @ [CHR 0x5C] @ ''u'',
      executable = ''C:'' @ [CHR 0x5C] @ ''Python'' @ [CHR 0x5C] @ ''python.exe'',
      environ = Map.empty, spawn = exits rc out, mkdir = mkdir_ok\<rparr>"

text \<open>A fresh machine (no file, no \<open>uv\<close>) and one whose environment exists.\<close>

definition fresh :: state where
  "fresh = \<lparr>sys = \<lparr>files = {}, which_uv = None\<rparr>, trace = []\<rparr>"

definition provisioned :: state where
  "provisioned =
     \<lparr>sys = \<lparr>files = {[''.spinel'', ''venv'', ''bin'', ''python'']}, which_uv = None\<rparr>, trace = []\<rparr>"

definition raises :: "exn \<Rightarrow> string list \<Rightarrow> world \<Rightarrow> proc \<times> world" where
  "raises e cmd w = (Raised e, w)"

text \<open>A host on which every process runs into the timeout.\<close>

definition timeout_host :: host where
  "timeout_host =
     \<lparr>platform = ''linux'', home = ''/home/u'', executable = ''/usr/bin/python3'',
      environ = Map.empty, spawn = raises (Exn TimeoutExpired ''timed out after 300 seconds''),
      mkdir = mkdir_ok\<rparr>"

text \<open>A host with both credentials set.\<close>

definition keyed_host :: host where
  "keyed_host =
     \<lparr>platform = ''linux'', home = ''/home/u'', executable = ''/usr/bin/python3'',
      environ = [''MP_API_KEY'' \<mapsto> ''k'', ''NOMAD_TOKEN'' \<mapsto> ''t''],
      spawn = exits 0 [], mkdir = mkdir_ok\<rparr>"

text \<open>A machine on which \<open>uv\<close> is found, and a host on which every invocation of it
  fails while every other process succeeds.\<close>

definition with_uv :: state where
  "with_uv = \<lparr>sys = \<lparr>files = {}, which_uv = Some ''/usr/bin/uv''\<rparr>, trace = []\<rparr>"

definition uv_fails :: "string list \<Rightarrow> world \<Rightarrow> proc \<times> world" where
  "uv_fails cmd w =
     (if take 1 cmd = [''/usr/bin/uv''] then (Completed 1 ''uv: error'' [], w)
      else (Completed 0 ''ok'' [], w))"

definition uv_fails_host :: host where
  "uv_fails_host =
     \<lparr>platform = ''linux'', home = ''/home/u'', executable = ''/usr/bin/python3'',
      environ = Map.empty, spawn = uv_fails, mkdir = mkdir_ok\<rparr>"

text \<open>A listing as the package manager prints it, and one cut short in its header.\<close>

definition listing :: string where
  "listing =
     ''Package          Version'' @ [CHR 0x0A] @
     ''---------------- -------'' @ [CHR 0x0A] @
     ''Dans-Diffraction 3.1.0'' @ [CHR 0x0A] @
     ''   '' @ [CHR 0x0A] @
     ''mp.api           0.41.2'' @ [CHR 0x0A]"

section \<open>Notions of the specification\<close>

text \<open>An OperationOutcome read off a finished invocation: \<open>succeeded\<close> is exit
  code zero, \<open>detail\<close> the combined output or the exception's text.\<close>

fun succeeded :: "proc \<Rightarrow> bool" where
  "succeeded (Completed rc out err) = (rc = 0)"
| "succeeded (Raised e) = False"

fun detail :: "proc \<Rightarrow> string" where
  "detail (Completed rc out err) = out @ err"
| "detail (Raised e) = str_exn e"

text \<open>The text before the first occurrence of a token, all of it when there is
  none.\<close>

fun before :: "string \<Rightarrow> string \<Rightarrow> string" where
  "before tok [] = []"
| "before tok (c # cs) = (if prefix tok (c # cs) then [] else c # before tok cs)"

text \<open>Truncation at the first occurrence of any of the comparator tokens.\<close>

fun truncate_at_comparator :: "string \<Rightarrow> string" where
  "truncate_at_comparator [] = []"
| "truncate_at_comparator (c # cs) =
     (if prefix ''>='' (c # cs) \<or> prefix ''<='' (c # cs) \<or> prefix ''=='' (c # cs) then []
      else c # truncate_at_comparator cs)"

text \<open>The canonical separator put for each \<open>-\<close> and \<open>.\<close>.\<close>

definition canonical :: "string \<Rightarrow> string" where
  "canonical s = map (\<lambda>c. if c = CHR ''-'' \<or> c = CHR ''.'' then CHR ''_'' else c) s"

text \<open>The normalized bare name of a PackageSpec, in the specification's words:
  lowercase, truncate at the first comparator token, canonicalize the separators.\<close>

definition bare_name :: "string \<Rightarrow> string" where
  "bare_name spec = canonical (truncate_at_comparator (lower spec))"

text \<open>ASCII text: every character below 128. Package names, comparators and version
  numbers are ASCII, and on ASCII text \<open>lower\<close>, \<open>split_ws\<close> and \<open>strip\<close> are
  Python's \<open>str.lower\<close>, \<open>str.split\<close> and \<open>str.strip\<close>.\<close>

definition ascii :: "string \<Rightarrow> bool" where
  "ascii s = list_all (\<lambda>c. (of_char c :: nat) < 128) s"

text \<open>Two characters that differ at most in case or in the separator convention,
  and two names that do so position by position: the same logical package.\<close>

definition same_char :: "char \<Rightarrow> char \<Rightarrow> bool" where
  "same_char a b =
     (lower_char a = lower_char b \<or>
      (a \<in> {CHR ''-'', CHR ''.'', CHR ''_''} \<and> b \<in> {CHR ''-'', CHR ''.'', CHR ''_''}))"

definition same_package :: "string \<Rightarrow> string \<Rightarrow> bool" where
  "same_package s t = list_all2 same_char s t"

text \<open>The argument conventions of the two tool families: environment creation and
  batch install, by the fast tool and by the canonical fallback; and the listing.\<close>

definition venv_fast_cmd :: "host \<Rightarrow> string \<Rightarrow> string list" where
  "venv_fast_cmd h uv = [uv, ''venv'', path_str h VENV_DIR]"

definition venv_fallback_cmd :: "host \<Rightarrow> string list" where
  "venv_fallback_cmd h = [executable h, ''-m'', ''venv'', path_str h VENV_DIR]"

definition install_fast_cmd :: "host \<Rightarrow> string \<Rightarrow> string list \<Rightarrow> string list" where
  "install_fast_cmd h uv specs = [uv, ''pip'', ''install'', ''--python'', get_python h] @ specs"

definition install_fallback_cmd :: "host \<Rightarrow> string list \<Rightarrow> string list" where
  "install_fallback_cmd h specs = [get_pip h, ''install''] @ specs"

definition list_cmd :: "host \<Rightarrow> string list" where
  "list_cmd h = [get_pip h, ''list'', ''--format=columns'']"

text \<open>The environment is absent: no interpreter at either relative path.\<close>

definition absent :: "world \<Rightarrow> bool" where
  "absent w =
     (VENV_DIR @ [''bin''] @ [''python''] \<notin> files w \<and>
      VENV_DIR @ [''Scripts''] @ [''python.exe''] \<notin> files w)"

text \<open>The fast tool is discoverable: \<open>shutil.which\<close> returned a path.\<close>

definition discoverable :: "world \<Rightarrow> bool" where
  "discoverable w = (case which_uv w of None \<Rightarrow> False | Some uv \<Rightarrow> uv \<noteq> [])"

section \<open>Text: basic facts\<close>

lemma lower_char_idem: "lower_char (lower_char c) = lower_char c"
  by (auto simp: lower_char_def)

lemma replace_twice_canonical:
  "replace (CHR ''.'') (CHR ''_'') (replace (CHR ''-'') (CHR ''_'') s) = canonical s"
  by (simp add: replace_def canonical_def)

lemma split_from_before: "\<exists>ws. split_from tok 0 s = before tok s # ws"
  by (induction s) auto

lemma index0_split_on: "index0 (split_on tok s) = Inr (before tok s)"
  using split_from_before [of tok s] by (auto simp: index0_def split_on_def)

lemma prefix_single_before:
  "tok \<noteq> [] \<Longrightarrow> hd tok \<noteq> a \<Longrightarrow> prefix [a] (before tok s) = prefix [a] s"
  by (cases s) (auto simp: prefix_Cons neq_Nil_conv)

lemma before_thrice:
  "before ''=='' (before ''<='' (before ''>='' s)) = truncate_at_comparator s"
  by (induction s) (auto simp: prefix_single_before)

lemma normalize_bare_name: "normalize_name spec = Inr (bare_name spec)"
  by (simp add: normalize_name_def index0_split_on before_thrice replace_twice_canonical bare_name_def)

section \<open>The Command Runner\<close>

lemma run_eq:
  "spawn h cmd (sys st) = (r, w) \<Longrightarrow>
   run h cmd st = ((succeeded r, detail r), st\<lparr>sys := w, trace := trace st @ [Spawn cmd]\<rparr>)"
  by (cases r) (auto simp: run_def run_try_def)

lemma spawned_append: "spawned (xs @ ys) = spawned xs @ spawned ys"
  by (induction xs rule: spawned.induct) auto

text \<open>
  C7. The Command Runner never raises. Whatever the spawned process ends in, \<open>run\<close>
  returns a pair: on exit code zero \<open>True\<close> with standard output followed by standard
  error; on a non-zero exit code \<open>False\<close> with the same captured text; on an exception
  (timeout, binary not found, any other) \<open>False\<close> with the exception's text. The body
  of the \<open>try\<close> raises exactly when the process does, and \<open>run\<close> turns that into a
  result. Each call of \<open>run\<close> is one call of \<open>subprocess.run\<close>.
\<close>

theorem run_never_raises:
  "(spawn h cmd (sys st) = (Completed 0 out err, w) \<longrightarrow>
      fst (run h cmd st) = (True, out @ err)) \<and>
   (spawn h cmd (sys st) = (Completed rc out err, w) \<and> rc \<noteq> 0 \<longrightarrow>
      fst (run h cmd st) = (False, out @ err)) \<and>
   (spawn h cmd (sys st) = (Raised (Exn cls msg), w) \<longrightarrow>
      fst (run_try h cmd st) = Inl (Exn cls msg) \<and> fst (run h cmd st) = (False, msg)) \<and>
   (\<exists>ok text. fst (run h cmd st) = (ok, text)) \<and>
   snd (run h cmd st) = st\<lparr>sys := snd (spawn h cmd (sys st)), trace := trace st @ [Spawn cmd]\<rparr>"
  by (auto simp: run_def run_try_def split: prod.splits proc.splits sum.splits)

theorem run_never_raises_witness:
  "fst (run (posix_host 0 ''done'') [''tool''] fresh) = (True, ''done'') \<and>
   fst (run (posix_host 2 ''broken'') [''tool''] fresh) = (False, ''broken'') \<and>
   fst (run timeout_host [''tool''] fresh) = (False, ''timed out after 300 seconds'') \<and>
   trace (snd (run timeout_host [''tool''] fresh)) = [Spawn [''tool'']]"
  using run_never_raises [of "posix_host 0 ''done''" "[''tool'']" fresh "''done''" "[]" "sys fresh" 0]
    run_never_raises [of "posix_host 2 ''broken''" "[''tool'']" fresh "''broken''" "[]" "sys fresh" 2]
    run_never_raises [of timeout_host "[''tool'']" fresh _ _ "sys fresh" _ TimeoutExpired
      "''timed out after 300 seconds''"]
  by (simp add: posix_host_def timeout_host_def exits_def raises_def fresh_def)

section \<open>The Environment Locator\<close>

text \<open>
  C8, as the code has it. On a Windows-like platform (\<open>sys.platform\<close> is \<open>win32\<close>)
  the interpreter path is \<open>Scripts\python\<close> under the environment's directory, with no
  \<open>.exe\<close> suffix, and the package manager's is \<open>Scripts\pip\<close>; on every other
  platform they are \<open>bin/python\<close> and \<open>bin/pip\<close>.
\<close>

theorem locator_paths:
  "(platform h = ''win32'' \<longrightarrow>
      get_python h = home h @ [CHR 0x5C] @ ''.spinel'' @ [CHR 0x5C] @ ''venv'' @ [CHR 0x5C]
                       @ ''Scripts'' @ [CHR 0x5C] @ ''python'' \<and>
      get_pip h = home h @ [CHR 0x5C] @ ''.spinel'' @ [CHR 0x5C] @ ''venv'' @ [CHR 0x5C]
                       @ ''Scripts'' @ [CHR 0x5C] @ ''pip'' \<and>
      \<not> suffix ''.exe'' (get_python h)) \<and>
   (platform h \<noteq> ''win32'' \<longrightarrow>
      get_python h = home h @ ''/.spinel/venv/bin/python'' \<and>
      get_pip h = home h @ ''/.spinel/venv/bin/pip'')"
  by (simp add: get_python_def get_pip_def path_str_def sep_def VENV_DIR_def suffix_def)

theorem locator_paths_witness:
  "get_python (win_host 0 []) =
     ''C:'' @ [CHR 0x5C] @ ''Users'' @ [CHR 0x5C] @ ''u'' @ [CHR 0x5C] @ ''.spinel'' @ [CHR 0x5C]
     @ ''venv'' @ [CHR 0x5C] @ ''Scripts'' @ [CHR 0x5C] @ ''python'' \<and>
   get_python (posix_host 0 []) = ''/home/u/.spinel/venv/bin/python'' \<and>
   get_pip (posix_host 0 []) = ''/home/u/.spinel/venv/bin/pip''"
  using locator_paths [of "win_host 0 []"] locator_paths [of "posix_host 0 []"]
  by (simp add: win_host_def posix_host_def)

text \<open>C8 as stated fails: on a Windows host the interpreter path does not end in
  \<open>.exe\<close>.\<close>

theorem windows_interpreter_suffix_counterexample:
  "platform (win_host 0 []) = ''win32'' \<and> \<not> suffix ''.exe'' (get_python (win_host 0 []))"
  by (simp add: win_host_def get_python_def path_str_def sep_def VENV_DIR_def suffix_def)

section \<open>The Credential Validator\<close>

text \<open>
  C9. With \<open>MP_API_KEY\<close> unset or empty and \<open>NOMAD_TOKEN\<close> unset or empty,
  \<open>check_api_keys\<close> returns exactly one issue and exactly one note; the issue's text
  contains \<open>MP_API_KEY\<close> and the note's contains \<open>NOMAD_TOKEN\<close>. With both set to
  nonempty texts it returns no issue and no note. In general each list depends only on
  whether its variable holds a nonempty text.
\<close>

theorem check_api_keys_classifies:
  "((environ h ''MP_API_KEY'' = None \<or> environ h ''MP_API_KEY'' = Some []) \<and>
    (environ h ''NOMAD_TOKEN'' = None \<or> environ h ''NOMAD_TOKEN'' = Some []) \<longrightarrow>
      check_api_keys h = ([mp_issue], [nomad_note])) \<and>
   (environ h ''MP_API_KEY'' = Some k \<and> k \<noteq> [] \<and>
    environ h ''NOMAD_TOKEN'' = Some t \<and> t \<noteq> [] \<longrightarrow>
      check_api_keys h = ([], [])) \<and>
   check_api_keys h =
     (if environ h ''MP_API_KEY'' = None \<or> environ h ''MP_API_KEY'' = Some [] then [mp_issue] else [],
      if environ h ''NOMAD_TOKEN'' = None \<or> environ h ''NOMAD_TOKEN'' = Some [] then [nomad_note] else []) \<and>
   sublist ''MP_API_KEY'' mp_issue \<and> sublist ''NOMAD_TOKEN'' nomad_note"
proof -
  have "prefix ''MP_API_KEY'' mp_issue" by (simp add: mp_issue_def)
  moreover have "prefix ''NOMAD_TOKEN'' nomad_note" by (simp add: nomad_note_def)
  ultimately have m: "sublist ''MP_API_KEY'' mp_issue \<and> sublist ''NOMAD_TOKEN'' nomad_note"
    using prefix_imp_sublist by blast
  have "check_api_keys h =
     (if environ h ''MP_API_KEY'' = None \<or> environ h ''MP_API_KEY'' = Some [] then [mp_issue] else [],
      if environ h ''NOMAD_TOKEN'' = None \<or> environ h ''NOMAD_TOKEN'' = Some [] then [nomad_note] else [])"
    by (auto simp: check_api_keys_def falsy_def split: option.splits)
  with m show ?thesis by auto
qed

theorem check_api_keys_classifies_witness:
  "check_api_keys (posix_host 0 []) = ([mp_issue], [nomad_note]) \<and>
   check_api_keys keyed_host = ([], []) \<and>
   sublist ''MP_API_KEY'' mp_issue \<and> sublist ''NOMAD_TOKEN'' nomad_note"
  using check_api_keys_classifies [of "posix_host 0 []"]
    check_api_keys_classifies [of keyed_host "''k''" "''t''"]
  by (simp add: posix_host_def keyed_host_def)

section \<open>The Environment Provisioner\<close>

text \<open>
  C1, as the code has it. When the interpreter is present at \<open>bin/python\<close> or at
  \<open>Scripts/python.exe\<close> under the environment's directory, \<open>ensure_venv\<close> returns
  success with the message \<open>venv exists\<close> and leaves the state as it was: nothing is
  printed and no process is spawned. A second call, on the state the first one left,
  returns the same and spawns nothing either.
\<close>

theorem ensure_venv_idempotent:
  assumes "VENV_DIR @ [''bin''] @ [''python''] \<in> files (sys st)
           \<or> VENV_DIR @ [''Scripts''] @ [''python.exe''] \<in> files (sys st)"
  shows "ensure_venv h st = (Inr (True, ''venv exists''), st) \<and>
         ensure_venv h (snd (ensure_venv h st)) = (Inr (True, ''venv exists''), st) \<and>
         spawned (trace (snd (ensure_venv h (snd (ensure_venv h st))))) = spawned (trace st)"
  using assms by (simp add: ensure_venv_def)

theorem ensure_venv_idempotent_witness:
  "ensure_venv (posix_host 1 ''no'') provisioned = (Inr (True, ''venv exists''), provisioned) \<and>
   ensure_venv (posix_host 1 ''no'') (snd (ensure_venv (posix_host 1 ''no'') provisioned))
     = (Inr (True, ''venv exists''), provisioned) \<and>
   spawned (trace (snd (ensure_venv (posix_host 1 ''no'')
      (snd (ensure_venv (posix_host 1 ''no'') provisioned))))) = []"
  using ensure_venv_idempotent [of provisioned "posix_host 1 ''no''"]
  by (simp add: provisioned_def VENV_DIR_def)

text \<open>C1 as stated fails in the message: with the interpreter present the result is
  not \<open>(True, "already exists")\<close>.\<close>

theorem ensure_venv_message_counterexample:
  "VENV_DIR @ [''bin''] @ [''python''] \<in> files (sys provisioned) \<and>
   fst (ensure_venv (posix_host 0 []) provisioned) \<noteq> Inr (True, ''already exists'')"
  by (simp add: ensure_venv_def provisioned_def VENV_DIR_def)

section \<open>The Package Reconciler: names\<close>

lemma missing_of_filter:
  "missing_of reqs installed = Inr (filter (\<lambda>p. bare_name p \<notin> installed) reqs)"
  by (induction reqs) (auto simp: normalize_bare_name)

lemma same_char_key:
  "same_char a b \<Longrightarrow>
   (if lower_char a = CHR ''-'' \<or> lower_char a = CHR ''.'' then CHR ''_'' else lower_char a) =
   (if lower_char b = CHR ''-'' \<or> lower_char b = CHR ''.'' then CHR ''_'' else lower_char b)"
  unfolding same_char_def by (auto simp: lower_char_def)

lemma same_package_key: "same_package s t \<Longrightarrow> canonical (lower s) = canonical (lower t)"
  unfolding same_package_def
  by (induction rule: list_all2_induct) (auto simp: canonical_def lower_def dest: same_char_key)

lemma lower_char_comparator:
  assumes "c \<notin> {CHR ''<'', CHR ''>'', CHR ''=''}"
  shows "lower_char c \<notin> {CHR ''<'', CHR ''>'', CHR ''=''}"
proof (cases "65 \<le> (of_char c :: nat) \<and> (of_char c :: nat) \<le> 90")
  case True
  then have "(of_char (lower_char c) :: nat) = of_char c + 32"
    by (simp add: lower_char_def)
  with True have "97 \<le> (of_char (lower_char c) :: nat)" by simp
  then show ?thesis by auto
next
  case False
  then have "lower_char c = c" unfolding lower_char_def by (rule if_not_P)
  with assms show ?thesis by simp
qed

lemma truncate_name_rest:
  assumes "rest = [] \<or> prefix ''>='' rest \<or> prefix ''<='' rest \<or> prefix ''=='' rest"
  shows "set name \<inter> {CHR ''<'', CHR ''>'', CHR ''=''} = {} \<Longrightarrow>
         truncate_at_comparator (name @ rest) = name"
proof (induction name)
  case Nil
  with assms show ?case by (cases rest) auto
next
  case (Cons c name)
  then show ?case by (auto simp: prefix_Cons)
qed

lemma split_ws_token:
  "t \<noteq> [] \<Longrightarrow> \<forall>c\<in>set t. \<not> is_space c \<Longrightarrow> split_ws (t @ CHR '' '' # v) = t # split_ws v"
proof (induction t)
  case Nil
  then show ?case by simp
next
  case (Cons c t)
  have sp: "is_space (CHR '' '')" by (simp add: is_space_def)
  show ?case
  proof (cases t)
    case Nil
    with Cons.prems sp show ?thesis by simp
  next
    case (Cons d t')
    with Cons.prems Cons.IH show ?thesis by simp
  qed
qed

lemma lower_name_clean:
  assumes "set name \<inter> {CHR ''<'', CHR ''>'', CHR ''=''} = {}"
  shows "set (lower name) \<inter> {CHR ''<'', CHR ''>'', CHR ''=''} = {}"
proof -
  have "lower_char c \<notin> {CHR ''<'', CHR ''>'', CHR ''=''}" if "c \<in> set name" for c
  proof (rule lower_char_comparator)
    from that assms show "c \<notin> {CHR ''<'', CHR ''>'', CHR ''=''}" by blast
  qed
  then have "\<forall>d\<in>set (lower name). d \<notin> {CHR ''<'', CHR ''>'', CHR ''=''}"
    unfolding lower_def by (metis (no_types, lifting) imageE list.set_map)
  then show ?thesis by blast
qed

lemma lower_append: "lower (a @ b) = lower a @ lower b"
  by (simp add: lower_def)

lemma lower_tokens: "lower ''>='' = ''>=''" "lower ''<='' = ''<=''" "lower ''=='' = ''==''"
  by (simp_all add: lower_def lower_char_def)

lemma prefix_lower: "prefix tok rest \<Longrightarrow> lower tok = tok \<Longrightarrow> prefix tok (lower rest)"
  by (metis lower_append prefix_def)

lemma lower_rest_comparator:
  assumes "rest = [] \<or> prefix ''>='' rest \<or> prefix ''<='' rest \<or> prefix ''=='' rest"
  shows "lower rest = [] \<or> prefix ''>='' (lower rest) \<or> prefix ''<='' (lower rest)
     \<or> prefix ''=='' (lower rest)"
proof -
  have "lower [] = []" by (simp add: lower_def)
  with assms show ?thesis
    using prefix_lower lower_tokens by blast
qed

lemma bare_name_spec:
  assumes "set name \<inter> {CHR ''<'', CHR ''>'', CHR ''=''} = {}"
    and "rest = [] \<or> prefix ''>='' rest \<or> prefix ''<='' rest \<or> prefix ''=='' rest"
  shows "bare_name (name @ rest) = canonical (lower name)"
proof -
  have "truncate_at_comparator (lower name @ lower rest) = lower name"
    using truncate_name_rest [OF lower_rest_comparator [OF assms(2)] lower_name_clean [OF assms(1)]] .
  then show ?thesis by (simp add: bare_name_def lower_append)
qed

text \<open>
  C2. Let \<open>name\<close> and \<open>t\<close> be the same logical package written under different
  casing or separator conventions (they agree position by position up to case and up to
  the choice among \<open>-\<close>, \<open>.\<close> and \<open>_\<close>), \<open>name\<close> free of comparator characters and
  \<open>t\<close> a token without whitespace, the spec and the listing's row being ASCII text as
  package names and versions are. Then the PackageSpec \<open>name\<close>, alone or followed by
  a comparator and a version, and the installed name \<open>t\<close> get the same key: \<open>normalize_name\<close>
  returns for the spec exactly the key that the listing loop stores for a row of \<open>t\<close>, so
  the spec is not reported missing against that listing.
\<close>

theorem normalization_equivalence:
  assumes "same_package name t"
    and "set name \<inter> {CHR ''<'', CHR ''>'', CHR ''=''} = {}"
    and "rest = [] \<or> prefix ''>='' rest \<or> prefix ''<='' rest \<or> prefix ''=='' rest"
    and "t \<noteq> []" and "\<forall>c\<in>set t. \<not> is_space c"
    and "ascii (name @ rest)" and "ascii (t @ '' '' @ version)"
  shows "\<exists>key. normalize_name (name @ rest) = Inr key \<and>
               installed_loop [t @ '' '' @ version] {} = Inr {key} \<and>
               key = replace (CHR ''.'') (CHR ''_'') (replace (CHR ''-'') (CHR ''_'') (lower t)) \<and>
               missing_of [name @ rest] {key} = Inr []"
proof -
  let ?key = "canonical (lower t)"
  have n: "normalize_name (name @ rest) = Inr ?key"
    using bare_name_spec [OF assms(2,3)] same_package_key [OF assms(1)]
    by (simp add: normalize_bare_name)
  have "split_ws (t @ '' '' @ version) = t # split_ws version"
    using split_ws_token [OF assms(4,5)] by simp
  then have l: "installed_loop [t @ '' '' @ version] {} = Inr {?key}"
    by (simp add: index0_def replace_twice_canonical)
  from n have m: "missing_of [name @ rest] {?key} = Inr []" by simp
  from n l m show ?thesis by (simp add: replace_twice_canonical)
qed

theorem normalization_equivalence_witness:
  "normalize_name ''Dans_Diffraction'' = Inr ''dans_diffraction'' \<and>
   installed_loop [''dans-diffraction 3.1.0''] {} = Inr {''dans_diffraction''} \<and>
   normalize_name ''Dans_Diffraction>=3.0'' = Inr ''dans_diffraction'' \<and>
   installed_loop [''dans.diffraction 3.1.0''] {} = Inr {''dans_diffraction''}"
proof -
  have a: "same_package ''Dans_Diffraction'' ''dans-diffraction''" by code_simp
  have b: "same_package ''Dans_Diffraction'' ''dans.diffraction''" by code_simp
  have c: "\<forall>c\<in>set ''dans-diffraction''. \<not> is_space c" by code_simp
  have d: "\<forall>c\<in>set ''dans.diffraction''. \<not> is_space c" by code_simp
  have e: "replace (CHR ''.'') (CHR ''_'') (replace (CHR ''-'') (CHR ''_'') (lower ''dans-diffraction''))
            = ''dans_diffraction''" by code_simp
  have f: "replace (CHR ''.'') (CHR ''_'') (replace (CHR ''-'') (CHR ''_'') (lower ''dans.diffraction''))
            = ''dans_diffraction''" by code_simp
  have n: "set ''Dans_Diffraction'' \<inter> {CHR ''<'', CHR ''>'', CHR ''=''} = {}" by simp
  have r1: "[] = [] \<or> prefix ''>='' [] \<or> prefix ''<='' [] \<or> prefix ''=='' ([] :: string)" by simp
  have r2: "''>=3.0'' = [] \<or> prefix ''>='' ''>=3.0'' \<or> prefix ''<='' ''>=3.0''
              \<or> prefix ''=='' ''>=3.0''" by simp
  have t1: "''dans-diffraction'' \<noteq> []" by simp
  have t2: "''dans.diffraction'' \<noteq> []" by simp
  have s1: "ascii (''Dans_Diffraction'' @ [])" by code_simp
  have s2: "ascii (''Dans_Diffraction'' @ ''>=3.0'')" by code_simp
  have l1: "ascii (''dans-diffraction'' @ '' '' @ ''3.1.0'')" by code_simp
  have l2: "ascii (''dans.diffraction'' @ '' '' @ ''3.1.0'')" by code_simp
  from normalization_equivalence [OF a n r1 t1 c s1 l1] e
  have g: "normalize_name ''Dans_Diffraction'' = Inr ''dans_diffraction'' \<and>
           installed_loop [''dans-diffraction 3.1.0''] {} = Inr {''dans_diffraction''}"
    by simp
  from normalization_equivalence [OF b n r2 t2 d s2 l2] f
  have h: "normalize_name ''Dans_Diffraction>=3.0'' = Inr ''dans_diffraction'' \<and>
           installed_loop [''dans.diffraction 3.1.0''] {} = Inr {''dans_diffraction''}"
    by simp
  from g h show ?thesis by simp
qed

section \<open>The Package Reconciler: the listing\<close>

lemma key_good:
  "lower (canonical (lower p)) = canonical (lower p) \<and>
   CHR ''-'' \<notin> set (canonical (lower p)) \<and> CHR ''.'' \<notin> set (canonical (lower p))"
  by (auto simp: lower_def canonical_def lower_char_idem lower_char_def)

lemma installed_loop_ok:
  "\<exists>S. installed_loop ls acc = Inr S \<and> S \<subseteq> acc \<union> range (\<lambda>p. canonical (lower p)) \<and>
       (finite acc \<longrightarrow> finite S)"
proof (induction ls arbitrary: acc)
  case Nil
  then show ?case by simp
next
  case (Cons line rest)
  show ?case
  proof (cases "split_ws line")
    case Nil
    with Cons.IH [of acc] show ?thesis by simp
  next
    case (Cons p ps)
    with Cons.IH [of "insert (canonical (lower p)) acc"] show ?thesis
      by (auto simp: index0_def replace_twice_canonical)
  qed
qed

text \<open>
  C10. For every host and state, and so for every text the listing command can print,
  \<open>check_installed\<close> returns a set and raises nothing: the skip of the two header lines
  and the indexing of the first token never fail, also on an empty text, on fewer than
  two lines and on lines of whitespace only. The set is finite and each name in it is
  lowercase and contains neither \<open>-\<close> nor \<open>.\<close>. The same holds of the parsing loop on
  any text \<open>out\<close>.
\<close>

theorem check_installed_total:
  "(\<exists>S. fst (check_installed h st) = Inr S \<and> finite S \<and>
        (\<forall>n\<in>S. lower n = n \<and> CHR ''-'' \<notin> set n \<and> CHR ''.'' \<notin> set n)) \<and>
   (\<exists>S. installed_loop (drop 2 (split_on [CHR 0x0A] (strip out))) {} = Inr S \<and> finite S \<and>
        (\<forall>n\<in>S. lower n = n \<and> CHR ''-'' \<notin> set n \<and> CHR ''.'' \<notin> set n))"
proof -
  have loop: "\<exists>S. installed_loop ls {} = Inr S \<and> finite S \<and>
        (\<forall>n\<in>S. lower n = n \<and> CHR ''-'' \<notin> set n \<and> CHR ''.'' \<notin> set n)" for ls
  proof -
    from installed_loop_ok [of ls "{}"] obtain S where
      S: "installed_loop ls {} = Inr S" "S \<subseteq> range (\<lambda>p. canonical (lower p))" "finite S"
      by auto
    from S(2) have "\<forall>n\<in>S. lower n = n \<and> CHR ''-'' \<notin> set n \<and> CHR ''.'' \<notin> set n"
      using key_good by blast
    with S show ?thesis by blast
  qed
  obtain ok out' st' where r: "run h [get_pip h, ''list'', ''--format=columns''] st = ((ok, out'), st')"
    by (metis prod.exhaust)
  have "\<exists>S. fst (check_installed h st) = Inr S \<and> finite S \<and>
        (\<forall>n\<in>S. lower n = n \<and> CHR ''-'' \<notin> set n \<and> CHR ''.'' \<notin> set n)"
  proof (cases ok)
    case True
    with r have "fst (check_installed h st) = installed_loop (drop 2 (split_on [CHR 0x0A] (strip out'))) {}"
      by (simp add: check_installed_def)
    with loop show ?thesis by simp
  next
    case False
    with r have "fst (check_installed h st) = Inr {}" by (simp add: check_installed_def)
    then show ?thesis by simp
  qed
  with loop show ?thesis by blast
qed

theorem check_installed_total_witness:
  "fst (check_installed (posix_host 0 listing) fresh) = Inr {''dans_diffraction'', ''mp_api''} \<and>
   lower ''mp_api'' = ''mp_api'' \<and> CHR ''-'' \<notin> set ''mp_api'' \<and>
   fst (check_installed (posix_host 0 ''Package'') fresh) = Inr {} \<and>
   fst (check_installed (posix_host 0 []) fresh) = Inr {} \<and>
   fst (check_installed (posix_host 0 (''   '' @ [CHR 0x0A] @ '' '')) fresh) = Inr {}"
proof -
  have a: "fst (check_installed (posix_host 0 listing) fresh) = Inr {''dans_diffraction'', ''mp_api''}"
    by code_simp
  have b: "fst (check_installed (posix_host 0 ''Package'') fresh) = Inr {}" by code_simp
  have c: "fst (check_installed (posix_host 0 []) fresh) = Inr {}" by code_simp
  have d: "fst (check_installed (posix_host 0 (''   '' @ [CHR 0x0A] @ '' '')) fresh) = Inr {}"
    by code_simp
  from check_installed_total [of "posix_host 0 listing" fresh] a
  have "lower ''mp_api'' = ''mp_api'' \<and> CHR ''-'' \<notin> set ''mp_api''" by simp
  with a b c d show ?thesis by simp
qed

section \<open>The Package Reconciler: the diff\<close>

lemma run_unfold:
  "run h cmd st =
     ((succeeded (fst (spawn h cmd (sys st))), detail (fst (spawn h cmd (sys st)))),
      st\<lparr>sys := snd (spawn h cmd (sys st)), trace := trace st @ [Spawn cmd]\<rparr>)"
  by (cases "spawn h cmd (sys st)") (simp add: run_eq)


text \<open>
  C4. If \<open>normalize_name\<close> maps every required spec to a name of the installed set,
  \<open>install_missing\<close> returns success with the message \<open>all packages installed\<close> and
  leaves the state as it was: no line is printed, no process is spawned.
\<close>

theorem empty_diff_noop:
  assumes "\<forall>p\<in>set reqs. \<exists>key\<in>installed. normalize_name p = Inr key"
  shows "install_missing h reqs installed st = (Inr (True, ''all packages installed''), st) \<and>
         spawned (trace (snd (install_missing h reqs installed st))) = spawned (trace st)"
proof -
  from assms have "\<forall>p\<in>set reqs. bare_name p \<in> installed"
    by (auto simp: normalize_bare_name)
  then have "filter (\<lambda>p. bare_name p \<notin> installed) reqs = []"
    by (simp add: filter_empty_conv)
  then show ?thesis by (simp add: install_missing_def missing_of_filter)
qed

theorem empty_diff_noop_witness:
  "install_missing (posix_host 1 ''no'') [''alpha>=1.0'', ''Mp-Api==0.41''] {''alpha'', ''mp_api''} with_uv
     = (Inr (True, ''all packages installed''), with_uv)"
proof -
  have a: "normalize_name ''alpha>=1.0'' = Inr ''alpha''" by code_simp
  have b: "normalize_name ''Mp-Api==0.41'' = Inr ''mp_api''" by code_simp
  show ?thesis
    using empty_diff_noop [of "[''alpha>=1.0'', ''Mp-Api==0.41'']" "{''alpha'', ''mp_api''}"
        "posix_host 1 ''no''" with_uv] a b
    by simp
qed

lemma install_missing_fallback_unfold:
  "install_missing_fallback h (get_pip h) missing s =
     (Inr (if succeeded (fst (spawn h (install_fallback_cmd h missing) (sys s)))
           then (True, ''installed '' @ str_nat (length missing) @ '' packages with pip'')
           else (False, ''Installation failed: '' @
                   last_chars 500 (detail (fst (spawn h (install_fallback_cmd h missing) (sys s)))))),
      s\<lparr>sys := snd (spawn h (install_fallback_cmd h missing) (sys s)),
        trace := trace s @ [Spawn (install_fallback_cmd h missing)]\<rparr>)"
  by (simp add: install_missing_fallback_def run_unfold install_fallback_cmd_def)

lemma ensure_venv_fallback_unfold:
  "ensure_venv_fallback h s =
     (Inr (if succeeded (fst (spawn h (venv_fallback_cmd h) (sys s)))
           then (True, ''created with venv'')
           else (False, ''Failed to create venv: '' @
                   detail (fst (spawn h (venv_fallback_cmd h) (sys s))))),
      s\<lparr>sys := snd (spawn h (venv_fallback_cmd h) (sys s)),
        trace := trace s @ [Spawn (venv_fallback_cmd h)]\<rparr>)"
  by (simp add: ensure_venv_fallback_def run_unfold venv_fallback_cmd_def)

lemma install_missing_spawned:
  assumes "missing_of reqs installed = Inr missing"
  shows "\<exists>cmds. spawned (trace (snd (install_missing h reqs installed st))) = spawned (trace st) @ cmds \<and>
           (cmds = [] \<longleftrightarrow> missing = []) \<and>
           (\<forall>cmd\<in>set cmds. cmd = [get_pip h, ''install''] @ missing \<or>
              (\<exists>uv. cmd = [uv, ''pip'', ''install'', ''--python'', get_python h] @ missing))"
proof (cases "missing = []")
  case True
  with assms show ?thesis by (simp add: install_missing_def)
next
  case False
  show ?thesis
  proof (cases "which_uv (sys st)")
    case None
    with False assms show ?thesis
      by (simp add: install_missing_def print_def install_missing_fallback_unfold
          spawned_append install_fallback_cmd_def)
  next
    case (Some uv)
    with False assms show ?thesis
      by (auto simp: install_missing_def print_def install_missing_fallback_unfold run_unfold
          spawned_append install_fallback_cmd_def Let_def)
  qed
qed

text \<open>
  C3. \<open>normalize_name\<close> never raises and returns the normalized bare name of the
  specification: the spec lowercased, truncated at the first occurrence of any of
  \<open>>=\<close>, \<open><=\<close>, \<open>==\<close>, with each \<open>-\<close> and \<open>.\<close> put to \<open>_\<close>. The missing list is
  the required list filtered, in declaration order and with the declarations unchanged,
  to the specs whose bare name is not in the installed set. Every process that
  \<open>install_missing\<close> spawns is an install invocation whose specs are exactly the missing
  list (after \<open>pip install\<close>, or after \<open>uv pip install --python\<close> and the interpreter),
  and it spawns none exactly when nothing is missing.
\<close>

theorem missing_list_and_install:
  "normalize_name spec = Inr (bare_name spec) \<and>
   missing_of reqs installed = Inr (filter (\<lambda>p. bare_name p \<notin> installed) reqs) \<and>
   (\<exists>cmds. spawned (trace (snd (install_missing h reqs installed st))) = spawned (trace st) @ cmds \<and>
      (cmds = [] \<longleftrightarrow> filter (\<lambda>p. bare_name p \<notin> installed) reqs = []) \<and>
      (\<forall>cmd\<in>set cmds.
          cmd = [get_pip h, ''install''] @ filter (\<lambda>p. bare_name p \<notin> installed) reqs \<or>
          (\<exists>uv. cmd = [uv, ''pip'', ''install'', ''--python'', get_python h]
                        @ filter (\<lambda>p. bare_name p \<notin> installed) reqs)))"
  using install_missing_spawned [OF missing_of_filter, of h reqs installed st]
  by (simp add: normalize_bare_name missing_of_filter)

theorem missing_list_and_install_witness:
  "normalize_name ''alpha>=1.0'' = Inr ''alpha'' \<and>
   missing_of [''alpha>=1.0'', ''beta''] {''alpha''} = Inr [''beta''] \<and>
   spawned (trace (snd (install_missing (posix_host 0 []) [''alpha>=1.0'', ''beta''] {''alpha''} fresh)))
     = [[''/home/u/.spinel/venv/bin/pip'', ''install'', ''beta'']] \<and>
   spawned (trace (snd (install_missing (posix_host 0 []) [''alpha>=1.0'', ''beta''] {''alpha''} with_uv)))
     = [[''/usr/bin/uv'', ''pip'', ''install'', ''--python'', ''/home/u/.spinel/venv/bin/python'',
         ''beta'']]"
proof -
  have a: "bare_name ''alpha>=1.0'' = ''alpha''" by code_simp
  have b: "filter (\<lambda>p. bare_name p \<notin> {''alpha''}) [''alpha>=1.0'', ''beta''] = [''beta'']"
    by code_simp
  have c: "spawned (trace (snd (install_missing (posix_host 0 []) [''alpha>=1.0'', ''beta'']
              {''alpha''} fresh))) = [[''/home/u/.spinel/venv/bin/pip'', ''install'', ''beta'']]"
    by code_simp
  have d: "spawned (trace (snd (install_missing (posix_host 0 []) [''alpha>=1.0'', ''beta'']
              {''alpha''} with_uv)))
            = [[''/usr/bin/uv'', ''pip'', ''install'', ''--python'',
                ''/home/u/.spinel/venv/bin/python'', ''beta'']]"
    by code_simp
  note T = missing_list_and_install [of "''alpha>=1.0''" "[''alpha>=1.0'', ''beta'']" "{''alpha''}"
      "posix_host 0 []" fresh]
  have n: "normalize_name ''alpha>=1.0'' = Inr ''alpha''"
    using T [THEN conjunct1] unfolding a .
  have m: "missing_of [''alpha>=1.0'', ''beta''] {''alpha''} = Inr [''beta'']"
    using T [THEN conjunct2, THEN conjunct1] unfolding b .
  from n m c d show ?thesis by blast
qed

section \<open>Fast tool, then fallback\<close>

lemma ensure_venv_uv_missing:
  assumes "absent (sys st)" and "mkdir h (butlast VENV_DIR) (sys st) = Inr w"
    and "\<not> discoverable w" and "spawn h (venv_fallback_cmd h) w = (r, w')"
  shows "fst (ensure_venv h st) =
           Inr (if succeeded r then (True, ''created with venv'')
                else (False, ''Failed to create venv: '' @ detail r)) \<and>
         sys (snd (ensure_venv h st)) = w' \<and>
         spawned (trace (snd (ensure_venv h st))) = spawned (trace st) @ [venv_fallback_cmd h]"
  using assms
  by (auto simp: absent_def discoverable_def ensure_venv_def print_def Let_def
      ensure_venv_fallback_unfold spawned_append split: option.splits)

lemma ensure_venv_uv_failed:
  assumes "absent (sys st)" and "mkdir h (butlast VENV_DIR) (sys st) = Inr w"
    and "which_uv w = Some uv" and "uv \<noteq> []"
    and "spawn h (venv_fast_cmd h uv) w = (r1, w1)" and "\<not> succeeded r1"
    and "spawn h (venv_fallback_cmd h) w1 = (r, w')"
  shows "fst (ensure_venv h st) =
           Inr (if succeeded r then (True, ''created with venv'')
                else (False, ''Failed to create venv: '' @ detail r)) \<and>
         sys (snd (ensure_venv h st)) = w' \<and>
         spawned (trace (snd (ensure_venv h st)))
           = spawned (trace st) @ [venv_fast_cmd h uv, venv_fallback_cmd h]"
proof -
  from assms(5) have f: "spawn h [uv, ''venv'', path_str h VENV_DIR] w = (r1, w1)"
    by (simp add: venv_fast_cmd_def)
  from assms(1-4,6,7) f show ?thesis
    by (simp add: absent_def ensure_venv_def print_def Let_def run_unfold
      ensure_venv_fallback_unfold spawned_append venv_fast_cmd_def)
qed

lemma ensure_venv_uv_succeeded:
  assumes "absent (sys st)" and "mkdir h (butlast VENV_DIR) (sys st) = Inr w"
    and "which_uv w = Some uv" and "uv \<noteq> []"
    and "spawn h (venv_fast_cmd h uv) w = (r1, w1)" and "succeeded r1"
  shows "fst (ensure_venv h st) = Inr (True, ''created with uv'') \<and>
         sys (snd (ensure_venv h st)) = w1 \<and>
         spawned (trace (snd (ensure_venv h st))) = spawned (trace st) @ [venv_fast_cmd h uv]"
proof -
  from assms(5) have f: "spawn h [uv, ''venv'', path_str h VENV_DIR] w = (r1, w1)"
    by (simp add: venv_fast_cmd_def)
  from assms(1-4,6) f show ?thesis
    by (simp add: absent_def ensure_venv_def print_def Let_def run_unfold
      spawned_append venv_fast_cmd_def)
qed

lemma install_uv_missing:
  assumes "missing_of reqs installed = Inr missing" and "missing \<noteq> []"
    and "\<not> discoverable (sys st)" and "spawn h (install_fallback_cmd h missing) (sys st) = (r, w')"
  shows "fst (install_missing h reqs installed st) =
           Inr (if succeeded r
                then (True, ''installed '' @ str_nat (length missing) @ '' packages with pip'')
                else (False, ''Installation failed: '' @ last_chars 500 (detail r))) \<and>
         sys (snd (install_missing h reqs installed st)) = w' \<and>
         spawned (trace (snd (install_missing h reqs installed st)))
           = spawned (trace st) @ [install_fallback_cmd h missing]"
  using assms
  by (auto simp: discoverable_def install_missing_def print_def Let_def
      install_missing_fallback_unfold spawned_append split: option.splits)

lemma install_uv_failed:
  assumes "missing_of reqs installed = Inr missing" and "missing \<noteq> []"
    and "which_uv (sys st) = Some uv" and "uv \<noteq> []"
    and "spawn h (install_fast_cmd h uv missing) (sys st) = (r1, w1)" and "\<not> succeeded r1"
    and "spawn h (install_fallback_cmd h missing) w1 = (r, w')"
  shows "fst (install_missing h reqs installed st) =
           Inr (if succeeded r
                then (True, ''installed '' @ str_nat (length missing) @ '' packages with pip'')
                else (False, ''Installation failed: '' @ last_chars 500 (detail r))) \<and>
         sys (snd (install_missing h reqs installed st)) = w' \<and>
         spawned (trace (snd (install_missing h reqs installed st)))
           = spawned (trace st) @ [install_fast_cmd h uv missing, install_fallback_cmd h missing]"
proof -
  from assms(5)
  have f: "spawn h ([uv, ''pip'', ''install'', ''--python'', get_python h] @ missing) (sys st) = (r1, w1)"
    by (simp add: install_fast_cmd_def)
  from assms(1-4,6,7) f show ?thesis
    by (simp add: install_missing_def print_def Let_def run_unfold
      install_missing_fallback_unfold spawned_append install_fast_cmd_def)
qed

lemma install_uv_succeeded:
  assumes "missing_of reqs installed = Inr missing" and "missing \<noteq> []"
    and "which_uv (sys st) = Some uv" and "uv \<noteq> []"
    and "spawn h (install_fast_cmd h uv missing) (sys st) = (r1, w1)" and "succeeded r1"
  shows "fst (install_missing h reqs installed st) =
           Inr (True, ''installed '' @ str_nat (length missing) @ '' packages with uv'') \<and>
         sys (snd (install_missing h reqs installed st)) = w1 \<and>
         spawned (trace (snd (install_missing h reqs installed st)))
           = spawned (trace st) @ [install_fast_cmd h uv missing]"
proof -
  from assms(5)
  have f: "spawn h ([uv, ''pip'', ''install'', ''--python'', get_python h] @ missing) (sys st) = (r1, w1)"
    by (simp add: install_fast_cmd_def)
  from assms(1-4,6) f show ?thesis
    by (simp add: install_missing_def print_def Let_def run_unfold
      spawned_append install_fast_cmd_def)
qed

lemma ensure_venv_failure:
  assumes "absent (sys st)" and "mkdir h (butlast VENV_DIR) (sys st) = Inr w"
    and "fst (ensure_venv h st) = Inr (False, m)"
  shows "(\<not> discoverable w \<and> \<not> succeeded (fst (spawn h (venv_fallback_cmd h) w))) \<or>
         (\<exists>uv. which_uv w = Some uv \<and> uv \<noteq> [] \<and>
               \<not> succeeded (fst (spawn h (venv_fast_cmd h uv) w)) \<and>
               \<not> succeeded (fst (spawn h (venv_fallback_cmd h) (snd (spawn h (venv_fast_cmd h uv) w)))))"
  using assms
  by (auto simp: absent_def discoverable_def ensure_venv_def print_def Let_def run_unfold
      ensure_venv_fallback_unfold venv_fast_cmd_def split: option.splits if_splits)

lemma install_failure:
  assumes "missing_of reqs installed = Inr missing"
    and "fst (install_missing h reqs installed st) = Inr (False, m)"
  shows "(\<not> discoverable (sys st) \<and>
          \<not> succeeded (fst (spawn h (install_fallback_cmd h missing) (sys st)))) \<or>
         (\<exists>uv. which_uv (sys st) = Some uv \<and> uv \<noteq> [] \<and>
               \<not> succeeded (fst (spawn h (install_fast_cmd h uv missing) (sys st))) \<and>
               \<not> succeeded (fst (spawn h (install_fallback_cmd h missing)
                                  (snd (spawn h (install_fast_cmd h uv missing) (sys st))))))"
  using assms
  by (auto simp: discoverable_def install_missing_def print_def Let_def run_unfold
      install_missing_fallback_unfold install_fast_cmd_def split: option.splits if_splits)

text \<open>
  C5. In \<open>ensure_venv\<close>, once the environment is found absent and its parent directory
  is made, and in \<open>install_missing\<close>, once something is missing: if \<open>uv\<close> is not
  discoverable, or its invocation does not succeed, the fallback command is run next (in
  the world the fast attempt left) and the returned pair is decided by the fallback's
  outcome alone: success with the fallback's message when it succeeds, failure with its
  diagnostic text when it does not. A returned failure means that the fallback failed
  and that the fast tool was either not discoverable or had failed before it.
\<close>

theorem fallback_ordering:
  "(absent (sys st) \<and> mkdir h (butlast VENV_DIR) (sys st) = Inr w \<and> \<not> discoverable w \<and>
    spawn h (venv_fallback_cmd h) w = (r, w') \<longrightarrow>
      fst (ensure_venv h st) =
        Inr (if succeeded r then (True, ''created with venv'')
             else (False, ''Failed to create venv: '' @ detail r)) \<and>
      sys (snd (ensure_venv h st)) = w' \<and>
      spawned (trace (snd (ensure_venv h st))) = spawned (trace st) @ [venv_fallback_cmd h]) \<and>
   (absent (sys st) \<and> mkdir h (butlast VENV_DIR) (sys st) = Inr w \<and>
    which_uv w = Some uv \<and> uv \<noteq> [] \<and>
    spawn h (venv_fast_cmd h uv) w = (r1, w1) \<and> \<not> succeeded r1 \<and>
    spawn h (venv_fallback_cmd h) w1 = (r, w') \<longrightarrow>
      fst (ensure_venv h st) =
        Inr (if succeeded r then (True, ''created with venv'')
             else (False, ''Failed to create venv: '' @ detail r)) \<and>
      sys (snd (ensure_venv h st)) = w' \<and>
      spawned (trace (snd (ensure_venv h st)))
        = spawned (trace st) @ [venv_fast_cmd h uv, venv_fallback_cmd h]) \<and>
   (absent (sys st) \<and> mkdir h (butlast VENV_DIR) (sys st) = Inr w \<and>
    fst (ensure_venv h st) = Inr (False, m) \<longrightarrow>
      (\<not> discoverable w \<and> \<not> succeeded (fst (spawn h (venv_fallback_cmd h) w))) \<or>
      (\<exists>uv. which_uv w = Some uv \<and> uv \<noteq> [] \<and>
            \<not> succeeded (fst (spawn h (venv_fast_cmd h uv) w)) \<and>
            \<not> succeeded (fst (spawn h (venv_fallback_cmd h)
                               (snd (spawn h (venv_fast_cmd h uv) w)))))) \<and>
   (missing_of reqs installed = Inr missing \<and> missing \<noteq> [] \<and> \<not> discoverable (sys s) \<and>
    spawn h (install_fallback_cmd h missing) (sys s) = (q, v') \<longrightarrow>
      fst (install_missing h reqs installed s) =
        Inr (if succeeded q
             then (True, ''installed '' @ str_nat (length missing) @ '' packages with pip'')
             else (False, ''Installation failed: '' @ last_chars 500 (detail q))) \<and>
      sys (snd (install_missing h reqs installed s)) = v' \<and>
      spawned (trace (snd (install_missing h reqs installed s)))
        = spawned (trace s) @ [install_fallback_cmd h missing]) \<and>
   (missing_of reqs installed = Inr missing \<and> missing \<noteq> [] \<and>
    which_uv (sys s) = Some uv \<and> uv \<noteq> [] \<and>
    spawn h (install_fast_cmd h uv missing) (sys s) = (q1, v1) \<and> \<not> succeeded q1 \<and>
    spawn h (install_fallback_cmd h missing) v1 = (q, v') \<longrightarrow>
      fst (install_missing h reqs installed s) =
        Inr (if succeeded q
             then (True, ''installed '' @ str_nat (length missing) @ '' packages with pip'')
             else (False, ''Installation failed: '' @ last_chars 500 (detail q))) \<and>
      sys (snd (install_missing h reqs installed s)) = v' \<and>
      spawned (trace (snd (install_missing h reqs installed s)))
        = spawned (trace s) @ [install_fast_cmd h uv missing, install_fallback_cmd h missing]) \<and>
   (missing_of reqs installed = Inr missing \<and>
    fst (install_missing h reqs installed s) = Inr (False, m') \<longrightarrow>
      (\<not> discoverable (sys s) \<and>
       \<not> succeeded (fst (spawn h (install_fallback_cmd h missing) (sys s)))) \<or>
      (\<exists>uv. which_uv (sys s) = Some uv \<and> uv \<noteq> [] \<and>
            \<not> succeeded (fst (spawn h (install_fast_cmd h uv missing) (sys s))) \<and>
            \<not> succeeded (fst (spawn h (install_fallback_cmd h missing)
                               (snd (spawn h (install_fast_cmd h uv missing) (sys s)))))))"
proof -
  have p1: "absent (sys st) \<and> mkdir h (butlast VENV_DIR) (sys st) = Inr w \<and> \<not> discoverable w \<and>
    spawn h (venv_fallback_cmd h) w = (r, w') \<longrightarrow>
      fst (ensure_venv h st) =
        Inr (if succeeded r then (True, ''created with venv'')
             else (False, ''Failed to create venv: '' @ detail r)) \<and>
      sys (snd (ensure_venv h st)) = w' \<and>
      spawned (trace (snd (ensure_venv h st))) = spawned (trace st) @ [venv_fallback_cmd h]"
    using ensure_venv_uv_missing [of st h w r w'] by blast
  have p2: "absent (sys st) \<and> mkdir h (butlast VENV_DIR) (sys st) = Inr w \<and>
    which_uv w = Some uv \<and> uv \<noteq> [] \<and>
    spawn h (venv_fast_cmd h uv) w = (r1, w1) \<and> \<not> succeeded r1 \<and>
    spawn h (venv_fallback_cmd h) w1 = (r, w') \<longrightarrow>
      fst (ensure_venv h st) =
        Inr (if succeeded r then (True, ''created with venv'')
             else (False, ''Failed to create venv: '' @ detail r)) \<and>
      sys (snd (ensure_venv h st)) = w' \<and>
      spawned (trace (snd (ensure_venv h st)))
        = spawned (trace st) @ [venv_fast_cmd h uv, venv_fallback_cmd h]"
    using ensure_venv_uv_failed [of st h w uv r1 w1 r w'] by blast
  have p3: "absent (sys st) \<and> mkdir h (butlast VENV_DIR) (sys st) = Inr w \<and>
    fst (ensure_venv h st) = Inr (False, m) \<longrightarrow>
      (\<not> discoverable w \<and> \<not> succeeded (fst (spawn h (venv_fallback_cmd h) w))) \<or>
      (\<exists>uv. which_uv w = Some uv \<and> uv \<noteq> [] \<and>
            \<not> succeeded (fst (spawn h (venv_fast_cmd h uv) w)) \<and>
            \<not> succeeded (fst (spawn h (venv_fallback_cmd h)
                               (snd (spawn h (venv_fast_cmd h uv) w)))))"
    using ensure_venv_failure [of st h w m] by blast
  have r1: "missing_of reqs installed = Inr missing \<and> missing \<noteq> [] \<and> \<not> discoverable (sys s) \<and>
    spawn h (install_fallback_cmd h missing) (sys s) = (q, v') \<longrightarrow>
      fst (install_missing h reqs installed s) =
        Inr (if succeeded q
             then (True, ''installed '' @ str_nat (length missing) @ '' packages with pip'')
             else (False, ''Installation failed: '' @ last_chars 500 (detail q))) \<and>
      sys (snd (install_missing h reqs installed s)) = v' \<and>
      spawned (trace (snd (install_missing h reqs installed s)))
        = spawned (trace s) @ [install_fallback_cmd h missing]"
    using install_uv_missing [of reqs installed missing s h q v'] by blast
  have r2: "missing_of reqs installed = Inr missing \<and> missing \<noteq> [] \<and>
    which_uv (sys s) = Some uv \<and> uv \<noteq> [] \<and>
    spawn h (install_fast_cmd h uv missing) (sys s) = (q1, v1) \<and> \<not> succeeded q1 \<and>
    spawn h (install_fallback_cmd h missing) v1 = (q, v') \<longrightarrow>
      fst (install_missing h reqs installed s) =
        Inr (if succeeded q
             then (True, ''installed '' @ str_nat (length missing) @ '' packages with pip'')
             else (False, ''Installation failed: '' @ last_chars 500 (detail q))) \<and>
      sys (snd (install_missing h reqs installed s)) = v' \<and>
      spawned (trace (snd (install_missing h reqs installed s)))
        = spawned (trace s) @ [install_fast_cmd h uv missing, install_fallback_cmd h missing]"
    using install_uv_failed [of reqs installed missing s uv h q1 v1 q v'] by blast
  have r3: "missing_of reqs installed = Inr missing \<and>
    fst (install_missing h reqs installed s) = Inr (False, m') \<longrightarrow>
      (\<not> discoverable (sys s) \<and>
       \<not> succeeded (fst (spawn h (install_fallback_cmd h missing) (sys s)))) \<or>
      (\<exists>uv. which_uv (sys s) = Some uv \<and> uv \<noteq> [] \<and>
            \<not> succeeded (fst (spawn h (install_fast_cmd h uv missing) (sys s))) \<and>
            \<not> succeeded (fst (spawn h (install_fallback_cmd h missing)
                               (snd (spawn h (install_fast_cmd h uv missing) (sys s))))))"
    using install_failure [of reqs installed missing h s m'] by blast
  from p1 p2 p3 r1 r2 r3 show ?thesis by (intro conjI)
qed

theorem fallback_ordering_witness:
  "fst (ensure_venv uv_fails_host with_uv) = Inr (True, ''created with venv'') \<and>
   spawned (trace (snd (ensure_venv uv_fails_host with_uv)))
     = [[''/usr/bin/uv'', ''venv'', ''/home/u/.spinel/venv''],
        [''/usr/bin/python3'', ''-m'', ''venv'', ''/home/u/.spinel/venv'']] \<and>
   fst (ensure_venv (posix_host 1 ''boom'') fresh) = Inr (False, ''Failed to create venv: boom'') \<and>
   fst (install_missing uv_fails_host [''alpha>=1.0'', ''beta''] {''alpha''} with_uv)
     = Inr (True, ''installed 1 packages with pip'') \<and>
   spawned (trace (snd (install_missing uv_fails_host [''alpha>=1.0'', ''beta''] {''alpha''} with_uv)))
     = [[''/usr/bin/uv'', ''pip'', ''install'', ''--python'', ''/home/u/.spinel/venv/bin/python'',
         ''beta''],
        [''/home/u/.spinel/venv/bin/pip'', ''install'', ''beta'']] \<and>
   fst (install_missing (posix_host 1 ''boom'') [''alpha>=1.0'', ''beta''] {''alpha''} fresh)
     = Inr (False, ''Installation failed: boom'')"
proof -
  let ?W = "\<lparr>files = {[''.spinel'']}, which_uv = Some ''/usr/bin/uv''\<rparr>"
  let ?V = "\<lparr>files = {[''.spinel'']}, which_uv = None\<rparr>"
  let ?reqs = "[''alpha>=1.0'', ''beta'']"
  have m: "missing_of ?reqs {''alpha''} = Inr [''beta'']" by code_simp
  have n: "str_nat (length [''beta'']) = ''1''" by code_simp
  have l: "last_chars 500 ''boom'' = ''boom''" by code_simp
  have a: "absent (sys with_uv) \<and> mkdir uv_fails_host (butlast VENV_DIR) (sys with_uv) = Inr ?W \<and>
     which_uv ?W = Some ''/usr/bin/uv'' \<and> ''/usr/bin/uv'' \<noteq> [] \<and>
     spawn uv_fails_host (venv_fast_cmd uv_fails_host ''/usr/bin/uv'') ?W
       = (Completed 1 ''uv: error'' [], ?W) \<and>
     \<not> succeeded (Completed 1 ''uv: error'' []) \<and>
     spawn uv_fails_host (venv_fallback_cmd uv_fails_host) ?W = (Completed 0 ''ok'' [], ?W)"
    by (simp add: absent_def with_uv_def VENV_DIR_def uv_fails_host_def mkdir_ok_def uv_fails_def
        venv_fast_cmd_def venv_fallback_cmd_def)
  have b: "absent (sys fresh) \<and> mkdir (posix_host 1 ''boom'') (butlast VENV_DIR) (sys fresh) = Inr ?V \<and>
     \<not> discoverable ?V \<and>
     spawn (posix_host 1 ''boom'') (venv_fallback_cmd (posix_host 1 ''boom'')) ?V
       = (Completed 1 ''boom'' [], ?V)"
    by (simp add: absent_def fresh_def VENV_DIR_def posix_host_def mkdir_ok_def exits_def
        discoverable_def)
  have c: "missing_of ?reqs {''alpha''} = Inr [''beta''] \<and> [''beta''] \<noteq> [] \<and>
     which_uv (sys with_uv) = Some ''/usr/bin/uv'' \<and> ''/usr/bin/uv'' \<noteq> [] \<and>
     spawn uv_fails_host (install_fast_cmd uv_fails_host ''/usr/bin/uv'' [''beta'']) (sys with_uv)
       = (Completed 1 ''uv: error'' [], sys with_uv) \<and>
     \<not> succeeded (Completed 1 ''uv: error'' []) \<and>
     spawn uv_fails_host (install_fallback_cmd uv_fails_host [''beta'']) (sys with_uv)
       = (Completed 0 ''ok'' [], sys with_uv)"
    using m
    by (simp add: with_uv_def uv_fails_host_def uv_fails_def install_fast_cmd_def
        install_fallback_cmd_def get_pip_def path_str_def sep_def)
  have d: "missing_of ?reqs {''alpha''} = Inr [''beta''] \<and> [''beta''] \<noteq> [] \<and>
     \<not> discoverable (sys fresh) \<and>
     spawn (posix_host 1 ''boom'') (install_fallback_cmd (posix_host 1 ''boom'') [''beta'']) (sys fresh)
       = (Completed 1 ''boom'' [], sys fresh)"
    using m by (simp add: fresh_def posix_host_def exits_def discoverable_def)
  note A = fallback_ordering [where st = with_uv and h = uv_fails_host and w = ?W
      and uv = "''/usr/bin/uv''" and ?r1.0 = "Completed 1 ''uv: error'' []" and ?w1.0 = ?W
      and r = "Completed 0 ''ok'' []" and w' = ?W, THEN conjunct2, THEN conjunct1, THEN mp, OF a]
  note B = fallback_ordering [where st = fresh and h = "posix_host 1 ''boom''" and w = ?V
      and r = "Completed 1 ''boom'' []" and w' = ?V, THEN conjunct1, THEN mp, OF b]
  note C = fallback_ordering [where s = with_uv and h = uv_fails_host and reqs = ?reqs
      and installed = "{''alpha''}" and missing = "[''beta'']"
      and uv = "''/usr/bin/uv''" and ?q1.0 = "Completed 1 ''uv: error'' []" and ?v1.0 = "sys with_uv"
      and q = "Completed 0 ''ok'' []" and v' = "sys with_uv",
      THEN conjunct2, THEN conjunct2, THEN conjunct2, THEN conjunct2, THEN conjunct1, THEN mp, OF c]
  note D = fallback_ordering [where s = fresh and h = "posix_host 1 ''boom''" and reqs = ?reqs
      and installed = "{''alpha''}" and missing = "[''beta'']"
      and q = "Completed 1 ''boom'' []" and v' = "sys fresh",
      THEN conjunct2, THEN conjunct2, THEN conjunct2, THEN conjunct1, THEN mp, OF d]
  have A': "fst (ensure_venv uv_fails_host with_uv) = Inr (True, ''created with venv'') \<and>
     spawned (trace (snd (ensure_venv uv_fails_host with_uv)))
     = [[''/usr/bin/uv'', ''venv'', ''/home/u/.spinel/venv''],
        [''/usr/bin/python3'', ''-m'', ''venv'', ''/home/u/.spinel/venv'']]"
    using A
    by (simp add: with_uv_def venv_fast_cmd_def venv_fallback_cmd_def uv_fails_host_def
        path_str_def sep_def VENV_DIR_def)
  have B': "fst (ensure_venv (posix_host 1 ''boom'') fresh) = Inr (False, ''Failed to create venv: boom'')"
    using B by simp
  have C': "fst (install_missing uv_fails_host ?reqs {''alpha''} with_uv)
       = Inr (True, ''installed 1 packages with pip'') \<and>
     spawned (trace (snd (install_missing uv_fails_host ?reqs {''alpha''} with_uv)))
     = [[''/usr/bin/uv'', ''pip'', ''install'', ''--python'', ''/home/u/.spinel/venv/bin/python'',
         ''beta''],
        [''/home/u/.spinel/venv/bin/pip'', ''install'', ''beta'']]"
    using C n
    by (simp add: with_uv_def install_fast_cmd_def install_fallback_cmd_def uv_fails_host_def
        get_pip_def get_python_def path_str_def sep_def VENV_DIR_def)
  have D': "fst (install_missing (posix_host 1 ''boom'') ?reqs {''alpha''} fresh)
       = Inr (False, ''Installation failed: boom'')"
    using D l by simp
  from A' B' C' D' show ?thesis by blast
qed

section \<open>A failed listing\<close>

lemma missing_of_nothing_installed: "missing_of reqs {} = Inr reqs"
  by (simp add: missing_of_filter)

text \<open>
  C6. If the listing command does not succeed (non-zero exit or an exception),
  \<open>check_installed\<close> returns the empty set and raises nothing. Against the empty set
  every required spec is missing, so step 2 of \<open>main\<close> goes on to install all of them:
  each install invocation it spawns after the listing carries the whole required list,
  and there is one unless the list is empty.
\<close>

theorem listing_failure_installs_all:
  assumes "spawn h (list_cmd h) (sys st) = (r, w)" and "\<not> succeeded r"
  shows "check_installed h st = (Inr {}, st\<lparr>sys := w, trace := trace st @ [Spawn (list_cmd h)]\<rparr>) \<and>
         missing_of reqs {} = Inr reqs \<and>
         main_packages h reqs st
           = install_missing h reqs {} (st\<lparr>sys := w, trace := trace st @ [Spawn (list_cmd h)]\<rparr>) \<and>
         (\<exists>cmds. spawned (trace (snd (main_packages h reqs st)))
                   = spawned (trace st) @ [list_cmd h] @ cmds \<and>
                 (cmds = [] \<longleftrightarrow> reqs = []) \<and>
                 (\<forall>cmd\<in>set cmds. cmd = [get_pip h, ''install''] @ reqs \<or>
                    (\<exists>uv. cmd = [uv, ''pip'', ''install'', ''--python'', get_python h] @ reqs)))"
proof -
  let ?st' = "st\<lparr>sys := w, trace := trace st @ [Spawn (list_cmd h)]\<rparr>"
  from assms have c: "check_installed h st = (Inr {}, ?st')"
    by (simp add: check_installed_def Let_def run_unfold list_cmd_def)
  then have m: "main_packages h reqs st = install_missing h reqs {} ?st'"
    by (simp add: main_packages_def)
  from install_missing_spawned [OF missing_of_nothing_installed, of h reqs ?st']
  obtain cmds where
    "spawned (trace (snd (install_missing h reqs {} ?st'))) = spawned (trace ?st') @ cmds"
    "cmds = [] \<longleftrightarrow> reqs = []"
    "\<forall>cmd\<in>set cmds. cmd = [get_pip h, ''install''] @ reqs \<or>
        (\<exists>uv. cmd = [uv, ''pip'', ''install'', ''--python'', get_python h] @ reqs)"
    by blast
  then have "\<exists>cmds. spawned (trace (snd (main_packages h reqs st)))
                   = spawned (trace st) @ [list_cmd h] @ cmds \<and>
                 (cmds = [] \<longleftrightarrow> reqs = []) \<and>
                 (\<forall>cmd\<in>set cmds. cmd = [get_pip h, ''install''] @ reqs \<or>
                    (\<exists>uv. cmd = [uv, ''pip'', ''install'', ''--python'', get_python h] @ reqs))"
    using m by (auto simp: spawned_append)
  with c m missing_of_nothing_installed show ?thesis by blast
qed

theorem listing_failure_installs_all_witness:
  "check_installed (posix_host 1 ''error'') fresh
     = (Inr {}, fresh\<lparr>trace := [Spawn [''/home/u/.spinel/venv/bin/pip'', ''list'', ''--format=columns'']]\<rparr>) \<and>
   missing_of [''alpha>=1.0'', ''beta''] {} = Inr [''alpha>=1.0'', ''beta''] \<and>
   spawned (trace (snd (main_packages (posix_host 1 ''error'') [''alpha>=1.0'', ''beta''] fresh)))
     = [[''/home/u/.spinel/venv/bin/pip'', ''list'', ''--format=columns''],
        [''/home/u/.spinel/venv/bin/pip'', ''install'', ''alpha>=1.0'', ''beta'']]"
proof -
  have a: "spawn (posix_host 1 ''error'') (list_cmd (posix_host 1 ''error'')) (sys fresh)
             = (Completed 1 ''error'' [], sys fresh)"
    by (simp add: posix_host_def exits_def)
  have b: "\<not> succeeded (Completed 1 ''error'' [])" by simp
  note T = listing_failure_installs_all [OF a b, of "[''alpha>=1.0'', ''beta'']"]
  have c: "check_installed (posix_host 1 ''error'') fresh
     = (Inr {}, fresh\<lparr>trace := [Spawn [''/home/u/.spinel/venv/bin/pip'', ''list'', ''--format=columns'']]\<rparr>)"
    using T [THEN conjunct1]
    by (simp add: list_cmd_def get_pip_def posix_host_def path_str_def sep_def VENV_DIR_def fresh_def)
  have d: "spawned (trace (snd (main_packages (posix_host 1 ''error'') [''alpha>=1.0'', ''beta''] fresh)))
     = [[''/home/u/.spinel/venv/bin/pip'', ''list'', ''--format=columns''],
        [''/home/u/.spinel/venv/bin/pip'', ''install'', ''alpha>=1.0'', ''beta'']]"
    by code_simp
  from c T [THEN conjunct2, THEN conjunct1] d show ?thesis by blast
qed

end
